theory Spec2Isabelle
  imports Main
begin

section \<open>ShadowServer: a single-upstream reverse proxy (shadowproxy/main.py)\<close>

text \<open>
  The development embeds the methods of class \<open>ShadowServer\<close>: \<open>construct_target_url\<close>,
  \<open>prepare_headers\<close>, \<open>is_response_chunked\<close>, \<open>build_response\<close>, the inner loop
  \<open>forward\<close>, \<open>handle_websocket\<close> and \<open>handle_request\<close>.

  Everything the methods obtain from the HTTP library (the outcome of the upstream
  request, the frames a WebSocket delivers, whether a write succeeds) is an explicit
  input of the model, so that every theorem holds for whatever the library answers.
\<close>

subsection \<open>Strings\<close>

text \<open>
  Header names and values are \<open>string\<close>s: the UTF-8 bytes of the text. \<open>lower\<close> is
  Python's \<open>str.lower\<close>: \<open>A\<close> to \<open>Z\<close> are mapped to \<open>a\<close> to \<open>z\<close>; of the code points
  outside ASCII, the Kelvin sign U+212A (bytes E2 84 AA) is mapped to \<open>k\<close> and the
  capital I with dot above U+0130 (bytes C4 B0) to \<open>i\<close> followed by the combining dot
  U+0307 (bytes CC 87). These two are the only code points outside ASCII whose lower
  case contains an ASCII character. Every other code point outside ASCII has a lower
  case outside ASCII and its bytes are kept as they are here; the source compares
  lowered strings with ASCII constants only, and for those comparisons the outcome is
  that of \<open>str.lower\<close>.
\<close>

definition lower_char :: "char \<Rightarrow> char" where
  "lower_char c =
     (let n = (of_char c :: nat)
      in if 65 \<le> n \<and> n \<le> 90 then char_of (n + 32) else c)"

fun lower :: "string \<Rightarrow> string" where
  "lower (a # b # c # s) =
     (if a = CHR 0xE2 \<and> b = CHR 0x84 \<and> c = CHR 0xAA then CHR ''k'' # lower s
      else if a = CHR 0xC4 \<and> b = CHR 0xB0
      then CHR ''i'' # CHR 0xCC # CHR 0x87 # lower (c # s)
      else lower_char a # lower (b # c # s))"
| "lower [a, b] =
     (if a = CHR 0xC4 \<and> b = CHR 0xB0 then [CHR ''i'', CHR 0xCC, CHR 0x87]
      else [lower_char a, lower_char b])"
| "lower [a] = [lower_char a]"
| "lower [] = []"

declare lower.simps [simp del]

text \<open>\<open>starts_with s p\<close> is \<open>s.startswith(p)\<close>; \<open>contains s p\<close> is \<open>p in s\<close>.\<close>

fun starts_with :: "string \<Rightarrow> string \<Rightarrow> bool" where
  "starts_with s [] = True"
| "starts_with [] (p # ps) = False"
| "starts_with (c # cs) (p # ps) = (c = p \<and> starts_with cs ps)"

fun contains :: "string \<Rightarrow> string \<Rightarrow> bool" where
  "contains [] p = (p = [])"
| "contains (c # cs) p = (starts_with (c # cs) p \<or> contains cs p)"

text \<open>\<open>str_nat n\<close> is \<open>str(n)\<close> for a non-negative integer: its decimal digits.\<close>

definition digit :: "nat \<Rightarrow> char" where
  "digit d = char_of (48 + d)"

fun str_nat :: "nat \<Rightarrow> string" where
  "str_nat n = (if n < 10 then [digit n] else str_nat (n div 10) @ [digit (n mod 10)])"

declare str_nat.simps [simp del]

text \<open>
  \<open>int_of_str\<close> reads a decimal numeral back (Python's \<open>int(s)\<close> on a string of
  digits); it serves to say which number a rendered length denotes.
\<close>

definition digit_val :: "char \<Rightarrow> nat" where
  "digit_val c = (of_char c :: nat) - 48"

definition int_of_str :: "string \<Rightarrow> nat" where
  "int_of_str s = foldl (\<lambda>acc c. 10 * acc + digit_val c) 0 s"

subsection \<open>Header containers\<close>

text \<open>
  The library's header mappings (\<open>CIMultiDictProxy\<close>, \<open>MultiDict\<close>) are ordered
  sequences of (key, value) pairs that allow repeated keys; \<open>items()\<close> yields the pairs
  in order, with each key in the casing it was stored in.
\<close>

type_synonym headers = "(string \<times> string) list"

text \<open>
  \<open>ci_get h k d\<close> is \<open>h.get(k, d)\<close> on the case-insensitive mapping of a request or
  of an upstream response: the value of the first entry whose key equals \<open>k\<close> up to
  case, \<open>d\<close> when there is none.
\<close>

fun ci_get :: "headers \<Rightarrow> string \<Rightarrow> string \<Rightarrow> string" where
  "ci_get [] k d = d"
| "ci_get ((k', v) # h) k d = (if lower k' = lower k then v else ci_get h k d)"

text \<open>
  A Python \<open>dict\<close>: keys are unique and compared exactly, insertion order is kept.
  \<open>dict_setitem d k v\<close> is \<open>d[k] = v\<close>: an existing key keeps its position and takes
  the new value, a new key goes to the end. \<open>dict_of_items\<close> is the dict comprehension
  \<open>{key: value for key, value in items}\<close>.
\<close>

fun dict_setitem :: "headers \<Rightarrow> string \<Rightarrow> string \<Rightarrow> headers" where
  "dict_setitem [] k v = [(k, v)]"
| "dict_setitem ((k', v') # d) k v =
     (if k' = k then (k', v) # d else (k', v') # dict_setitem d k v)"

definition dict_of_items :: "headers \<Rightarrow> headers" where
  "dict_of_items items = foldl (\<lambda>d (k, v). dict_setitem d k v) [] items"

text \<open>
  \<open>MultiDict\<close> is the case-sensitive multi-valued mapping. \<open>md_contains m k\<close> is
  \<open>k in m\<close>. \<open>md_setitem m k v\<close> is \<open>m[k] = v\<close>: the first entry under \<open>k\<close> is
  replaced and every later entry under \<open>k\<close> is removed; without such an entry the
  pair is appended.
\<close>

definition md_contains :: "headers \<Rightarrow> string \<Rightarrow> bool" where
  "md_contains m k = (k \<in> set (map fst m))"

fun md_setitem :: "headers \<Rightarrow> string \<Rightarrow> string \<Rightarrow> headers" where
  "md_setitem [] k v = [(k, v)]"
| "md_setitem ((k', v') # m) k v =
     (if k' = k then (k, v) # filter (\<lambda>(a, b). a \<noteq> k) m
      else (k', v') # md_setitem m k v)"

subsection \<open>Server, requests and responses\<close>

record server =
  target_base_url :: string
  timeout :: nat
  max_conn :: nat

text \<open>
  What the handler reads from the inbound request: \<open>request.method\<close>,
  \<open>request.match_info['path_info']\<close>, \<open>request.query_string\<close>, \<open>request.headers\<close>,
  the body returned by \<open>request.read()\<close> and \<open>request.cookies\<close>.
\<close>

record request =
  rq_method :: string
  path_info :: string
  query_string :: string
  rq_headers :: headers
  rq_body :: string
  rq_cookies :: headers

text \<open>The upstream response: \<open>response.status\<close>, \<open>response.headers\<close>, \<open>response.read()\<close>.\<close>

record upstream_response =
  up_status :: nat
  up_headers :: headers
  up_body :: string

text \<open>
  The arguments handed to \<open>web.Response\<close>: \<open>status=\<close>, \<open>headers=\<close> (none when the
  argument is omitted) and the payload, given either as \<open>body=\<close> (bytes) or as
  \<open>text=\<close> (a plain-text string).
\<close>

datatype payload = Body string | Text string

record response =
  status :: nat
  resp_headers :: headers
  payload :: payload

subsection \<open>Target URL and request headers\<close>

definition construct_target_url :: "server \<Rightarrow> request \<Rightarrow> string" where
  "construct_target_url srv rq =
     (let target_url = target_base_url srv @ ''/'' @ path_info rq
      in if query_string rq \<noteq> [] then target_url @ ''?'' @ query_string rq
         else target_url)"

text \<open>
  \<open>netloc\<close> stands for \<open>urlsplit(_).netloc\<close> of the standard library, the authority
  component of a URL; it is a parameter.
\<close>

definition prepare_headers :: "(string \<Rightarrow> string) \<Rightarrow> server \<Rightarrow> request \<Rightarrow> headers" where
  "prepare_headers netloc srv rq =
     (let hdrs = dict_of_items (filter (\<lambda>(key, value). lower key \<noteq> ''host'') (rq_headers rq))
      in dict_setitem hdrs ''Host'' (netloc (target_base_url srv)))"

subsection \<open>Response assembly\<close>

definition is_response_chunked :: "upstream_response \<Rightarrow> bool" where
  "is_response_chunked resp =
     (lower (ci_get (up_headers resp) ''Transfer-Encoding'' '''') = ''chunked'')"

text \<open>
  The chained assignment \<open>headers['Content-Length'] = headers['content-length'] = v\<close>
  evaluates \<open>v\<close> once and assigns the targets from left to right.
\<close>

definition build_response :: "upstream_response \<Rightarrow> response" where
  "build_response resp =
     (let b = up_body resp;
          hdrs = filter (\<lambda>(key, value). lower key \<noteq> ''transfer-encoding'') (up_headers resp);
          hdrs' = (if \<not> md_contains hdrs ''Content-Length'' \<and> \<not> is_response_chunked resp
                   then md_setitem (md_setitem hdrs ''Content-Length'' (str_nat (length b)))
                          ''content-length'' (str_nat (length b))
                   else hdrs)
      in \<lparr>status = up_status resp, resp_headers = hdrs', payload = Body b\<rparr>)"

subsection \<open>Failures\<close>

text \<open>
  An exception raised by the HTTP library, with the text that \<open>str(e)\<close> gives.
  \<open>ClientError\<close> stands for \<open>aiohttp.ClientError\<close> and its subclasses (a refused
  connection is a \<open>ClientConnectorError\<close>, a malformed upstream response a
  \<open>ClientResponseError\<close>, a dropped connection a \<open>ServerDisconnectedError\<close>).
  \<open>TimeoutError\<close> is \<open>asyncio.TimeoutError\<close>, which is what the client session raises
  when the budget of \<open>ClientTimeout(total=...)\<close> set in \<open>init_session\<close> runs out; it is
  not a subclass of \<open>ClientError\<close>. \<open>OtherError\<close> is any other exception.
  \<open>is_client_error e\<close> is \<open>isinstance(e, ClientError)\<close>, the test of the
  \<open>except ClientError\<close> clause.
\<close>

datatype exn = ClientError string | TimeoutError string | OtherError string

fun is_client_error :: "exn \<Rightarrow> bool" where
  "is_client_error (ClientError m) = True"
| "is_client_error (TimeoutError m) = False"
| "is_client_error (OtherError m) = False"

fun exn_str :: "exn \<Rightarrow> string" where
  "exn_str (ClientError m) = m"
| "exn_str (TimeoutError m) = m"
| "exn_str (OtherError m) = m"

subsection \<open>The WebSocket relay\<close>

text \<open>The members of \<open>WSMsgType\<close>.\<close>

datatype ws_msg_type = CONTINUATION | TEXT | BINARY | PING | PONG | CLOSE | CLOSING | CLOSED | ERROR

text \<open>
  What a socket gives when \<open>async for msg in ws_from\<close> asks it for its next message:
  either the read raises, or a message of some type with its data is received. The
  third component of \<open>Msg\<close> is the answer
  of the library to the write that the loop body performs for this message
  (\<open>send_str\<close>, \<open>send_bytes\<close> or \<open>close\<close> on \<open>ws_to\<close>): \<open>None\<close> when the call
  returns, \<open>Some e\<close> when it raises \<open>e\<close>.
\<close>

datatype ws_event = Msg ws_msg_type string "exn option" | RecvError exn

datatype frame = TextFrame string | BinaryFrame string

text \<open>
  What the handler does to a socket: the frames it has written to it, and whether it
  has closed it, by a call of \<open>close()\<close> or by leaving the \<open>async with\<close> block that
  owns it. What the library or the web framework does to a socket of its own accord is
  not part of the source and not recorded here.
\<close>

record ws_sock =
  sent :: "frame list"
  closed :: bool

definition new_sock :: ws_sock where
  "new_sock = \<lparr>sent = [], closed = False\<rparr>"

text \<open>
  \<open>forward evs ws_to\<close> is the loop of the coroutine \<open>forward(ws_from, ws_to)\<close> run
  on \<open>evs\<close>, the turns of the iteration that reach the loop body, in order. It returns
  the exception that ended the loop, if any, and the state in which it leaves
  \<open>ws_to\<close>. The loop has no \<open>try\<close> and no \<open>break\<close>.
\<close>

fun forward :: "ws_event list \<Rightarrow> ws_sock \<Rightarrow> exn option \<times> ws_sock" where
  "forward [] ws_to = (None, ws_to)"
| "forward (RecvError e # evs) ws_to = (Some e, ws_to)"
| "forward (Msg t d w # evs) ws_to =
     (if t = TEXT then
        (case w of Some e \<Rightarrow> (Some e, ws_to)
         | None \<Rightarrow> forward evs (ws_to\<lparr>sent := sent ws_to @ [TextFrame d]\<rparr>))
      else if t = BINARY then
        (case w of Some e \<Rightarrow> (Some e, ws_to)
         | None \<Rightarrow> forward evs (ws_to\<lparr>sent := sent ws_to @ [BinaryFrame d]\<rparr>))
      else if t = CLOSE then
        (case w of Some e \<Rightarrow> (Some e, ws_to)
         | None \<Rightarrow> forward evs (ws_to\<lparr>closed := True\<rparr>))
      else forward evs ws_to)"

text \<open>
  The library's iteration: \<open>async for msg in ws_from\<close> asks the socket for its next
  message and ends the iteration, without running the loop body, when that message
  has type \<open>CLOSE\<close>, \<open>CLOSING\<close> or \<open>CLOSED\<close>; a message of any other type is handed to
  the loop body.
\<close>

fun stops_iteration :: "ws_event \<Rightarrow> bool" where
  "stops_iteration (Msg t d w) = (t = CLOSE \<or> t = CLOSING \<or> t = CLOSED)"
| "stops_iteration (RecvError e) = False"

text \<open>
  The two coroutines \<open>forward(ws_client, ws_server)\<close> and
  \<open>forward(ws_server, ws_client)\<close> run interleaved under \<open>asyncio.gather\<close>. An event
  of a session comes from one of the two sides: \<open>Upstream\<close> is an event of
  \<open>ws_client\<close>, the socket towards the upstream, read by the first coroutine;
  \<open>Client\<close> is an event of \<open>ws_server\<close>, the socket towards the client, read by the
  second. The events of a session are listed in the order in which they arrive; after
  the last one nothing arrives any more, so a coroutine that is still waiting for a
  message then waits forever.

  The state of the relay: which coroutines are still running, and the two sockets.
\<close>

datatype side = Upstream | Client

record relay =
  upstream_leg :: bool
  client_leg :: bool
  ws_server :: ws_sock
  ws_client :: ws_sock

definition new_relay :: relay where
  "new_relay = \<lparr>upstream_leg = True, client_leg = True,
                 ws_server = new_sock, ws_client = new_sock\<rparr>"

definition idle_relay :: relay where
  "idle_relay = \<lparr>upstream_leg = False, client_leg = False,
                  ws_server = new_sock, ws_client = new_sock\<rparr>"

text \<open>
  For the coroutine that reads side \<open>sd\<close>: whether it is running, the socket it
  writes to (\<open>ws_to\<close>), the update of that socket, and its end.
\<close>

fun leg_running :: "side \<Rightarrow> relay \<Rightarrow> bool" where
  "leg_running Upstream r = upstream_leg r"
| "leg_running Client r = client_leg r"

fun peer_sock :: "side \<Rightarrow> relay \<Rightarrow> ws_sock" where
  "peer_sock Upstream r = ws_server r"
| "peer_sock Client r = ws_client r"

fun set_peer :: "side \<Rightarrow> ws_sock \<Rightarrow> relay \<Rightarrow> relay" where
  "set_peer Upstream s r = r\<lparr>ws_server := s\<rparr>"
| "set_peer Client s r = r\<lparr>ws_client := s\<rparr>"

fun end_leg :: "side \<Rightarrow> relay \<Rightarrow> relay" where
  "end_leg Upstream r = r\<lparr>upstream_leg := False\<rparr>"
| "end_leg Client r = r\<lparr>client_leg := False\<rparr>"

text \<open>
  One event. If the coroutine that reads this side has ended, nobody reads the event.
  If the event ends the iteration, the coroutine returns. Otherwise the loop body of
  \<open>forward\<close> runs once on it: it either raises, which ends the coroutine with that
  exception, or leaves the peer socket updated.
\<close>

definition relay_step :: "side \<times> ws_event \<Rightarrow> relay \<Rightarrow> exn option \<times> relay" where
  "relay_step x r =
     (case x of (sd, ev) \<Rightarrow>
        if \<not> leg_running sd r then (None, r)
        else if stops_iteration ev then (None, end_leg sd r)
        else (case forward [ev] (peer_sock sd r) of
                (Some e, s) \<Rightarrow> (Some e, end_leg sd (set_peer sd s r))
              | (None, s) \<Rightarrow> (None, set_peer sd s r)))"

text \<open>The events in order, up to the first exception that a coroutine raises.\<close>

fun relay_steps :: "(side \<times> ws_event) list \<Rightarrow> relay \<Rightarrow> exn option \<times> relay" where
  "relay_steps [] r = (None, r)"
| "relay_steps (x # xs) r =
     (case relay_step x r of
        (Some e, r') \<Rightarrow> (Some e, r')
      | (None, r') \<Rightarrow> relay_steps xs r')"

text \<open>
  \<open>await asyncio.gather(a, b)\<close> without \<open>return_exceptions\<close>: the first exception
  that one of the coroutines raises is raised to the caller at once, and the other
  coroutine is not cancelled; without an exception the call returns when both
  coroutines have returned, and does not return while one of them is waiting.
\<close>

datatype relay_end = Raises exn | Completes | WaitsForever

definition gather :: "(side \<times> ws_event) list \<Rightarrow> relay \<Rightarrow> relay_end \<times> relay" where
  "gather evs r =
     (case relay_steps evs r of
        (Some e, r') \<Rightarrow> (Raises e, r')
      | (None, r') \<Rightarrow>
          (if upstream_leg r' \<or> client_leg r' then WaitsForever else Completes, r'))"

text \<open>
  The environment of one request: the answer of \<open>session.request\<close> followed by
  \<open>response.read()\<close> (an exception, or the buffered upstream response), the answer of
  \<open>session.ws_connect\<close> and of \<open>ws_server.prepare(request)\<close> (\<open>Some e\<close> when the call
  raises \<open>e\<close>), and the events of the WebSocket session.
\<close>

record http_call =
  call_method :: string
  call_url :: string
  call_headers :: headers
  call_data :: string
  call_cookies :: headers

record env =
  session_request :: "http_call \<Rightarrow> exn + upstream_response"
  ws_connect :: "string \<times> headers \<Rightarrow> exn option"
  ws_prepare :: "exn option"
  ws_events :: "(side \<times> ws_event) list"

text \<open>
  The result of \<open>handle_websocket\<close>: whether it raises, returns \<open>ws_server\<close>, or
  never gets past the \<open>await\<close>, and the state of the relay at that point. Leaving
  the \<open>async with\<close> block, by \<open>return\<close> or by an exception, closes \<open>ws_client\<close>. When
  \<open>ws_connect\<close> raises, no socket came to exist and no coroutine ran.
\<close>

record ws_outcome =
  ws_end :: relay_end
  final :: relay

definition handle_websocket :: "env \<Rightarrow> string \<Rightarrow> headers \<Rightarrow> ws_outcome" where
  "handle_websocket en target_url hdrs =
     (case ws_connect en (target_url, hdrs) of
        Some e \<Rightarrow> \<lparr>ws_end = Raises e, final = idle_relay\<rparr>
      | None \<Rightarrow>
          (case ws_prepare en of
             Some e \<Rightarrow> \<lparr>ws_end = Raises e,
                         final = idle_relay\<lparr>ws_client := new_sock\<lparr>closed := True\<rparr>\<rparr>\<rparr>
           | None \<Rightarrow>
               (let (res, r) = gather (ws_events en) new_relay
                in if res = WaitsForever then \<lparr>ws_end = res, final = r\<rparr>
                   else \<lparr>ws_end = res,
                         final = r\<lparr>ws_client := (ws_client r)\<lparr>closed := True\<rparr>\<rparr>\<rparr>)))"

subsection \<open>The request handler\<close>

text \<open>
  What \<open>handle_request\<close> gives back to the web framework: a \<open>web.Response\<close>, or the
  prepared \<open>ws_server\<close>. \<open>client_headers\<close> are the headers the handler put into it
  (\<open>web.WebSocketResponse()\<close> is constructed without any).
\<close>

datatype handler_result = HttpResponse response | WebSocketResponse ws_sock

fun client_headers :: "handler_result \<Rightarrow> headers" where
  "client_headers (HttpResponse r) = resp_headers r"
| "client_headers (WebSocketResponse s) = []"

datatype upstream_call = HttpCall http_call | WsCall string headers

fun headers_of_call :: "upstream_call \<Rightarrow> headers" where
  "headers_of_call (HttpCall c) = call_headers c"
| "headers_of_call (WsCall url hdrs) = hdrs"

fun url_of_call :: "upstream_call \<Rightarrow> string" where
  "url_of_call (HttpCall c) = call_url c"
| "url_of_call (WsCall url hdrs) = url"

text \<open>
  The outcome of one call of \<open>handle_request\<close>: \<open>Some\<close> of the value returned
  (\<open>Inr\<close>) or of the exception that leaves the handler (\<open>Inl\<close>), \<open>None\<close> when the
  handler never returns; the calls made to the upstream in order, and the lines
  printed.
\<close>

record outcome =
  returned :: "(exn + handler_result) option"
  upstream_calls :: "upstream_call list"
  printed :: "string list"

text \<open>
  The clause \<open>except ClientError as e\<close> applied to an exception raised in the
  \<open>try\<close> block, after the given upstream calls.
\<close>

definition except_ClientError :: "string \<Rightarrow> upstream_call list \<Rightarrow> exn \<Rightarrow> outcome" where
  "except_ClientError target_url calls e =
     (if is_client_error e
      then \<lparr>returned = Some (Inr (HttpResponse \<lparr>status = 502, resp_headers = [],
                                                 payload = Text ''Bad Gateway''\<rparr>)),
            upstream_calls = calls,
            printed = [''Proxy error to '' @ target_url @ '': '' @ exn_str e]\<rparr>
      else \<lparr>returned = Some (Inl e), upstream_calls = calls, printed = []\<rparr>)"

definition wants_upgrade :: "request \<Rightarrow> bool" where
  "wants_upgrade rq = contains (lower (ci_get (rq_headers rq) ''connection'' '''')) ''upgrade''"

definition handle_request :: "(string \<Rightarrow> string) \<Rightarrow> server \<Rightarrow> env \<Rightarrow> request \<Rightarrow> outcome" where
  "handle_request netloc srv en rq =
     (let target_url = construct_target_url srv rq;
          hdrs = prepare_headers netloc srv rq
      in if wants_upgrade rq
         then (let w = handle_websocket en target_url hdrs
               in case ws_end w of
                    Raises e \<Rightarrow> except_ClientError target_url [WsCall target_url hdrs] e
                  | Completes \<Rightarrow>
                      \<lparr>returned = Some (Inr (WebSocketResponse (ws_server (final w)))),
                       upstream_calls = [WsCall target_url hdrs], printed = []\<rparr>
                  | WaitsForever \<Rightarrow>
                      \<lparr>returned = None, upstream_calls = [WsCall target_url hdrs],
                       printed = []\<rparr>)
         else (let c = \<lparr>call_method = rq_method rq, call_url = target_url,
                          call_headers = hdrs, call_data = rq_body rq,
                          call_cookies = rq_cookies rq\<rparr>
               in case session_request en c of
                    Inl e \<Rightarrow> except_ClientError target_url [HttpCall c] e
                  | Inr resp \<Rightarrow> \<lparr>returned = Some (Inr (HttpResponse (build_response resp))),
                                  upstream_calls = [HttpCall c], printed = []\<rparr>))"

subsection \<open>Conditions named in the statements\<close>

text \<open>
  The condition of the \<open>if\<close> in \<open>build_response\<close> under which the two
  content-length keys are written.
\<close>

definition injects_content_length :: "upstream_response \<Rightarrow> bool" where
  "injects_content_length resp =
     (\<not> md_contains (filter (\<lambda>(key, value). lower key \<noteq> ''transfer-encoding'')
                        (up_headers resp)) ''Content-Length''
      \<and> \<not> is_response_chunked resp)"

definition bad_gateway :: response where
  "bad_gateway = \<lparr>status = 502, resp_headers = [], payload = Text ''Bad Gateway''\<rparr>"

subsection \<open>Concrete inputs\<close>

definition ex_server :: server where
  "ex_server = \<lparr>target_base_url = ''http://backend:9000'', timeout = 30, max_conn = 100\<rparr>"

text \<open>\<open>urlsplit('http://backend:9000').netloc\<close> is \<open>'backend:9000'\<close>.\<close>

definition ex_netloc :: "string \<Rightarrow> string" where
  "ex_netloc url = (if url = ''http://backend:9000'' then ''backend:9000'' else [])"

definition ex_request :: request where
  "ex_request = \<lparr>rq_method = ''GET'', path_info = ''api/items'', query_string = ''page=2'',
     rq_headers = [(''HOST'', ''evil.example''), (''Accept'', ''text/html''),
                   (''Connection'', ''keep-alive'')],
     rq_body = [], rq_cookies = []\<rparr>"

definition ex_root_request :: request where
  "ex_root_request = \<lparr>rq_method = ''GET'', path_info = [], query_string = [],
     rq_headers = [(''Host'', ''proxy.local'')], rq_body = [], rq_cookies = []\<rparr>"

definition ex_dup_request :: request where
  "ex_dup_request = \<lparr>rq_method = ''GET'', path_info = ''api/items'', query_string = [],
     rq_headers = [(''Accept'', ''text/html''), (''Host'', ''proxy.local''),
                   (''Accept'', ''application/json'')],
     rq_body = [], rq_cookies = []\<rparr>"

definition ex_ws_request :: request where
  "ex_ws_request = \<lparr>rq_method = ''GET'', path_info = ''live'', query_string = [],
     rq_headers = [(''Host'', ''proxy.local''), (''Connection'', ''Upgrade''),
                   (''Upgrade'', ''websocket'')],
     rq_body = [], rq_cookies = []\<rparr>"

definition ex_chunked_response :: upstream_response where
  "ex_chunked_response = \<lparr>up_status = 200,
     up_headers = [(''Transfer-Encoding'', ''chunked''), (''Content-Type'', ''text/html'')],
     up_body = ''hello''\<rparr>"

definition ex_plain_response :: upstream_response where
  "ex_plain_response = \<lparr>up_status = 200,
     up_headers = [(''Content-Type'', ''text/html'')], up_body = ''hello''\<rparr>"

text \<open>A reply to a \<open>HEAD\<close> request whose length header is spelt in lower case.\<close>

definition ex_lowercase_response :: upstream_response where
  "ex_lowercase_response = \<lparr>up_status = 200,
     up_headers = [(''content-length'', ''10'')], up_body = []\<rparr>"

definition ex_env :: "(exn + upstream_response) \<Rightarrow> (side \<times> ws_event) list \<Rightarrow> env" where
  "ex_env answer events =
     \<lparr>session_request = (\<lambda>c. answer),
      ws_connect = (\<lambda>c. None),
      ws_prepare = None,
      ws_events = events\<rparr>"

definition ex_http_env :: env where
  "ex_http_env = ex_env (Inr ex_chunked_response) []"

definition ex_refused_env :: env where
  "ex_refused_env = ex_env (Inl (ClientError ''Cannot connect to host backend:9000'')) []"

definition ex_timeout_env :: env where
  "ex_timeout_env = ex_env (Inl (TimeoutError [])) []"

text \<open>
  The client sends a text frame and then a close frame; the upstream stays connected
  and sends nothing.
\<close>

definition ex_client_close_env :: env where
  "ex_client_close_env =
     ex_env (Inr ex_plain_response)
       [(Client, Msg TEXT ''ping'' None), (Client, Msg CLOSE [] None)]"

text \<open>
  The upstream sends a close frame; the client then sends a text frame, and the write
  of it to the closing upstream socket raises a \<open>ClientError\<close>.
\<close>

definition ex_write_failure_env :: env where
  "ex_write_failure_env =
     ex_env (Inr ex_plain_response)
       [(Upstream, Msg CLOSE [] None),
        (Client, Msg TEXT ''ping'' (Some (ClientError ''Cannot write to closing transport'')))]"

text \<open>Frames go both ways, then the client and the upstream each send a close frame.\<close>

definition ex_both_close_env :: env where
  "ex_both_close_env =
     ex_env (Inr ex_plain_response)
       [(Client, Msg TEXT ''ping'' None), (Upstream, Msg BINARY ''data'' None),
        (Client, Msg CLOSE [] None), (Upstream, Msg CLOSE [] None)]"

definition ex_ws_url :: string where
  "ex_ws_url = construct_target_url ex_server ex_ws_request"

definition ex_ws_headers :: headers where
  "ex_ws_headers = prepare_headers ex_netloc ex_server ex_ws_request"

text \<open>The upstream call made for \<open>ex_request\<close>: the client's \<open>HOST\<close> header is replaced.\<close>

definition ex_call :: http_call where
  "ex_call = \<lparr>call_method = ''GET'', call_url = ''http://backend:9000/api/items?page=2'',
     call_headers = [(''Accept'', ''text/html''), (''Connection'', ''keep-alive''),
                     (''Host'', ''backend:9000'')],
     call_data = [], call_cookies = []\<rparr>"

section \<open>Properties\<close>

subsection \<open>Case folding of the header names the code compares with\<close>

lemma lower_Host: "lower ''Host'' = ''host''"
  by code_simp

lemma lower_Content_Length: "lower ''Content-Length'' = ''content-length''"
  by code_simp

lemma lower_content_length: "lower ''content-length'' = ''content-length''"
  by code_simp

lemma content_length_not_te: "''content-length'' \<noteq> ''transfer-encoding''"
  by simp

text \<open>
  A \<open>Transfer-Encoding\<close> value spelt with the Kelvin sign in place of the \<open>k\<close> lowers
  to \<open>chunked\<close>, as it does under \<open>str.lower\<close>, and counts as chunked.
\<close>

lemma kelvin_sign_counts_as_chunked:
  "lower (''chun'' @ [CHR 0xE2, CHR 0x84, CHR 0xAA] @ ''ed'') = ''chunked''
   \<and> is_response_chunked \<lparr>up_status = 200,
         up_headers = [(''Transfer-Encoding'', ''chun'' @ [CHR 0xE2, CHR 0x84, CHR 0xAA] @ ''ed'')],
         up_body = []\<rparr>"
  by code_simp

subsection \<open>The dict and the MultiDict\<close>

lemma keys_dict_setitem: "fst ` set (dict_setitem d k v) = insert k (fst ` set d)"
  by (induction d k v rule: dict_setitem.induct) auto

lemma keys_foldl_setitem:
  "fst ` set (foldl (\<lambda>d (k, v). dict_setitem d k v) d xs) = fst ` set d \<union> fst ` set xs"
proof (induction xs arbitrary: d)
  case Nil
  show ?case by simp
next
  case (Cons x xs)
  obtain k v where x: "x = (k, v)" by (cases x)
  show ?case using Cons [of "dict_setitem d k v"]
    by (simp add: x keys_dict_setitem)
qed

lemma keys_dict_of_items: "fst ` set (dict_of_items xs) = fst ` set xs"
  by (simp add: dict_of_items_def keys_foldl_setitem)

lemma distinct_dict_setitem:
  "distinct (map fst d) \<Longrightarrow> distinct (map fst (dict_setitem d k v))"
proof (induction d k v rule: dict_setitem.induct)
  case (1 k v)
  show ?case by simp
next
  case (2 k' v' d k v)
  have "fst ` set (dict_setitem d k v) = insert k (fst ` set d)"
    by (rule keys_dict_setitem)
  with 2 show ?case by auto
qed

lemma distinct_foldl_setitem:
  "distinct (map fst d) \<Longrightarrow> distinct (map fst (foldl (\<lambda>d (k, v). dict_setitem d k v) d xs))"
proof (induction xs arbitrary: d)
  case Nil
  then show ?case by simp
next
  case (Cons x xs)
  obtain k v where x: "x = (k, v)" by (cases x)
  from Cons.prems have "distinct (map fst (dict_setitem d k v))"
    by (rule distinct_dict_setitem)
  then show ?case using Cons.IH [of "dict_setitem d k v"] by (simp add: x)
qed

lemma filter_dict_setitem_fresh:
  "\<forall>a \<in> fst ` set d. \<not> P a \<Longrightarrow> P k \<Longrightarrow>
   filter (\<lambda>(a, b). P a) (dict_setitem d k v) = [(k, v)]"
  by (induction d k v rule: dict_setitem.induct) auto

lemma set_md_setitem: "set (md_setitem m k v) \<subseteq> insert (k, v) (set m)"
  by (induction m k v rule: md_setitem.induct) auto

lemma filter_md_setitem_other:
  "\<not> P k \<Longrightarrow> filter (\<lambda>(a, b). P a) (md_setitem m k v) = filter (\<lambda>(a, b). P a) m"
proof (induction m k v rule: md_setitem.induct)
  case (1 k v)
  then show ?case by simp
next
  case (2 k' v' m k v)
  have "filter (\<lambda>(a, b). P a) (filter (\<lambda>(a, b). a \<noteq> k) m) = filter (\<lambda>(a, b). P a) m"
    using \<open>\<not> P k\<close> by (induction m) auto
  with 2 show ?case by auto
qed

lemma filter_md_setitem_same:
  "filter (\<lambda>(a, b). a = k) (md_setitem m k v) = [(k, v)]"
proof (induction m k v rule: md_setitem.induct)
  case (1 k v)
  show ?case by simp
next
  case (2 k' v' m k v)
  have "filter (\<lambda>(a, b). a = k) (filter (\<lambda>(a, b). a \<noteq> k) m) = []"
    by (induction m) auto
  with 2 show ?case by auto
qed

subsection \<open>The decimal rendering of a length\<close>

lemma digit_val_digit: "d < 10 \<Longrightarrow> digit_val (digit d) = d"
  by (simp add: digit_val_def digit_def)

lemma int_of_str_snoc: "int_of_str (s @ [c]) = 10 * int_of_str s + digit_val c"
  by (simp add: int_of_str_def)

lemma int_of_str_str_nat: "int_of_str (str_nat n) = n"
proof (induction n rule: str_nat.induct)
  case (1 n)
  show ?case
  proof (cases "n < 10")
    case True
    then show ?thesis
      by (simp add: str_nat.simps [of n] int_of_str_def digit_val_digit)
  next
    case False
    with 1 have "int_of_str (str_nat (n div 10)) = n div 10" by simp
    with False show ?thesis
      by (simp add: str_nat.simps [of n] int_of_str_snoc digit_val_digit)
  qed
qed

subsection \<open>Target URL\<close>

lemma calls_of_handle_request:
  "\<exists>c. upstream_calls (handle_request netloc srv en rq) = [c]
       \<and> url_of_call c = construct_target_url srv rq
       \<and> headers_of_call c = prepare_headers netloc srv rq"
  by (simp add: handle_request_def except_ClientError_def Let_def
           split: relay_end.splits sum.splits)

text \<open>
  C8. For a request with path \<open>p\<close> and query string \<open>q\<close> the target URL is the base
  URL, a slash and \<open>p\<close>, followed by a question mark and \<open>q\<close> exactly when \<open>q\<close>
  is not empty; path and query are taken over character for character, so an empty
  path gives a URL that ends in the slash. This is the URL of every call the handler
  makes to the upstream.
\<close>

theorem construct_target_url_joins:
  "(query_string rq \<noteq> [] \<longrightarrow>
      construct_target_url srv rq
        = target_base_url srv @ ''/'' @ path_info rq @ ''?'' @ query_string rq)
   \<and> (query_string rq = [] \<longrightarrow>
      construct_target_url srv rq = target_base_url srv @ ''/'' @ path_info rq)
   \<and> (path_info rq = [] \<and> query_string rq = [] \<longrightarrow>
      construct_target_url srv rq = target_base_url srv @ ''/'')
   \<and> (\<forall>c \<in> set (upstream_calls (handle_request netloc srv en rq)).
        url_of_call c = construct_target_url srv rq)"
proof -
  have "\<forall>c \<in> set (upstream_calls (handle_request netloc srv en rq)).
          url_of_call c = construct_target_url srv rq"
    using calls_of_handle_request [of netloc srv en rq] by auto
  then show ?thesis by (simp add: construct_target_url_def Let_def)
qed

theorem construct_target_url_joins_witness:
  "query_string ex_request \<noteq> []
   \<and> construct_target_url ex_server ex_request = ''http://backend:9000/api/items?page=2''
   \<and> path_info ex_root_request = [] \<and> query_string ex_root_request = []
   \<and> construct_target_url ex_server ex_root_request = ''http://backend:9000/''
   \<and> HttpCall ex_call \<in> set (upstream_calls (handle_request ex_netloc ex_server ex_http_env ex_request))
   \<and> url_of_call (HttpCall ex_call) = ''http://backend:9000/api/items?page=2''"
proof -
  have q: "query_string ex_request \<noteq> []"
    by (simp add: ex_request_def)
  have r: "path_info ex_root_request = [] \<and> query_string ex_root_request = []"
    by (simp add: ex_root_request_def)
  have m: "HttpCall ex_call \<in> set (upstream_calls (handle_request ex_netloc ex_server ex_http_env ex_request))"
    by code_simp
  note a = construct_target_url_joins [of ex_request ex_server ex_netloc ex_http_env]
  note b = construct_target_url_joins [of ex_root_request ex_server ex_netloc ex_http_env]
  have u: "construct_target_url ex_server ex_request = ''http://backend:9000/api/items?page=2''"
    using a q by (simp add: ex_request_def ex_server_def)
  have v: "construct_target_url ex_server ex_root_request = ''http://backend:9000/''"
    using b r by (simp add: ex_server_def)
  from a m have "url_of_call (HttpCall ex_call) = construct_target_url ex_server ex_request"
    by blast
  with q r m u v show ?thesis by simp
qed

subsection \<open>Request headers\<close>

lemma prepare_headers_host_entries:
  "filter (\<lambda>(key, value). lower key = ''host'') (prepare_headers netloc srv rq)
     = [(''Host'', netloc (target_base_url srv))]"
proof -
  let ?kept = "filter (\<lambda>(key, value). lower key \<noteq> ''host'') (rq_headers rq)"
  have "\<forall>a \<in> fst ` set (dict_of_items ?kept). \<not> lower a = ''host''"
    by (auto simp: keys_dict_of_items)
  then show ?thesis
    unfolding prepare_headers_def Let_def
    by (rule filter_dict_setitem_fresh) (rule lower_Host)
qed

text \<open>
  C5. In the headers of every call that the handler makes to the upstream, be it the
  HTTP request or the WebSocket connect, the entries named \<open>Host\<close> in any casing are
  exactly one, with the key \<open>Host\<close> and the authority of the configured base URL as its
  value, whatever the client sent. There is such a call for every request.
\<close>

theorem outbound_host_is_authority:
  "upstream_calls (handle_request netloc srv en rq) \<noteq> []
   \<and> (\<forall>c \<in> set (upstream_calls (handle_request netloc srv en rq)).
        filter (\<lambda>(key, value). lower key = ''host'') (headers_of_call c)
          = [(''Host'', netloc (target_base_url srv))])"
  using calls_of_handle_request [of netloc srv en rq]
  by (auto simp: prepare_headers_host_entries)

theorem outbound_host_is_authority_witness:
  "HttpCall ex_call \<in> set (upstream_calls (handle_request ex_netloc ex_server ex_http_env ex_request))
   \<and> filter (\<lambda>(key, value). lower key = ''host'') (headers_of_call (HttpCall ex_call))
       = [(''Host'', ''backend:9000'')]
   \<and> WsCall ex_ws_url ex_ws_headers
       \<in> set (upstream_calls (handle_request ex_netloc ex_server ex_client_close_env ex_ws_request))
   \<and> filter (\<lambda>(key, value). lower key = ''host'') (headers_of_call (WsCall ex_ws_url ex_ws_headers))
       = [(''Host'', ''backend:9000'')]"
proof -
  have n: "ex_netloc (target_base_url ex_server) = ''backend:9000''"
    by (simp add: ex_netloc_def ex_server_def)
  have m1: "HttpCall ex_call \<in> set (upstream_calls (handle_request ex_netloc ex_server ex_http_env ex_request))"
    by code_simp
  have m2: "WsCall ex_ws_url ex_ws_headers
       \<in> set (upstream_calls (handle_request ex_netloc ex_server ex_client_close_env ex_ws_request))"
    by code_simp
  note a = outbound_host_is_authority [of ex_netloc ex_server ex_http_env ex_request]
  note b = outbound_host_is_authority [of ex_netloc ex_server ex_client_close_env ex_ws_request]
  from a m1 have a1: "filter (\<lambda>(key, value). lower key = ''host'') (headers_of_call (HttpCall ex_call))
       = [(''Host'', ''backend:9000'')]"
    unfolding n by blast
  from b m2 have b1: "filter (\<lambda>(key, value). lower key = ''host'') (headers_of_call (WsCall ex_ws_url ex_ws_headers))
       = [(''Host'', ''backend:9000'')]"
    unfolding n by blast
  from m1 m2 a1 b1 show ?thesis by simp
qed

lemma prepare_headers_distinct_keys:
  "distinct (map fst (prepare_headers netloc srv rq))"
  unfolding prepare_headers_def Let_def dict_of_items_def
  by (intro distinct_dict_setitem distinct_foldl_setitem) simp

lemma dict_setitem_fresh: "k \<notin> fst ` set d \<Longrightarrow> dict_setitem d k v = d @ [(k, v)]"
  by (induction d k v rule: dict_setitem.induct) auto

lemma foldl_setitem_distinct:
  "distinct (map fst (d @ xs)) \<Longrightarrow> foldl (\<lambda>d (k, v). dict_setitem d k v) d xs = d @ xs"
proof (induction xs arbitrary: d)
  case Nil
  show ?case by simp
next
  case (Cons x xs)
  obtain k v where x: "x = (k, v)" by (cases x)
  from Cons.prems have fresh: "k \<notin> fst ` set d"
    by (auto simp: x)
  from Cons.prems have "distinct (map fst ((d @ [(k, v)]) @ xs))"
    by (simp add: x)
  then have "foldl (\<lambda>d (k, v). dict_setitem d k v) (d @ [(k, v)]) xs = (d @ [(k, v)]) @ xs"
    by (rule Cons.IH)
  then show ?case
    by (simp add: x dict_setitem_fresh [OF fresh])
qed

lemma prepare_headers_without_duplicates:
  assumes "distinct (map fst (filter (\<lambda>(key, value). lower key \<noteq> ''host'') (rq_headers rq)))"
  shows "prepare_headers netloc srv rq
           = filter (\<lambda>(key, value). lower key \<noteq> ''host'') (rq_headers rq)
             @ [(''Host'', netloc (target_base_url srv))]"
proof -
  let ?kept = "filter (\<lambda>(key, value). lower key \<noteq> ''host'') (rq_headers rq)"
  have d: "dict_of_items ?kept = ?kept"
    unfolding dict_of_items_def using foldl_setitem_distinct [of "[]" ?kept] assms by simp
  have "''Host'' \<notin> fst ` set ?kept"
    by (auto simp: lower_Host)
  then show ?thesis
    unfolding prepare_headers_def Let_def d by (rule dict_setitem_fresh)
qed

text \<open>
  C6. The request-direction rewrite does not keep repeated entries of one header name:
  of the two \<open>Accept\<close> headers of the client only the last value reaches the upstream.
\<close>

theorem duplicate_request_headers_collapse:
  "rq_headers ex_dup_request
     = [(''Accept'', ''text/html''), (''Host'', ''proxy.local''), (''Accept'', ''application/json'')]
   \<and> prepare_headers ex_netloc ex_server ex_dup_request
     = [(''Accept'', ''application/json''), (''Host'', ''backend:9000'')]"
  by code_simp

subsection \<open>Response headers\<close>

lemma build_response_headers:
  "resp_headers (build_response resp) =
     (let hdrs = filter (\<lambda>(key, value). lower key \<noteq> ''transfer-encoding'') (up_headers resp);
          v = str_nat (length (up_body resp))
      in if injects_content_length resp
         then md_setitem (md_setitem hdrs ''Content-Length'' v) ''content-length'' v
         else hdrs)"
  by (simp add: build_response_def injects_content_length_def Let_def)

lemma build_response_no_transfer_encoding:
  "filter (\<lambda>(key, value). lower key = ''transfer-encoding'') (resp_headers (build_response resp)) = []"
proof -
  let ?hdrs = "filter (\<lambda>(key, value). lower key \<noteq> ''transfer-encoding'') (up_headers resp)"
  let ?P = "\<lambda>a. lower a = ''transfer-encoding''"
  have base: "filter (\<lambda>(a, b). ?P a) ?hdrs = []"
    by (induction "up_headers resp") (auto simp: filter_empty_conv)
  have p1: "\<not> ?P ''Content-Length''" by (simp add: lower_Content_Length)
  have p2: "\<not> ?P ''content-length''" by (simp add: lower_content_length)
  have "filter (\<lambda>(a, b). ?P a) (md_setitem (md_setitem ?hdrs ''Content-Length'' v) ''content-length'' v) = []" for v
    using filter_md_setitem_other [of ?P, OF p2] filter_md_setitem_other [of ?P, OF p1] base
    by simp
  with base show ?thesis
    by (simp add: build_response_headers Let_def)
qed

text \<open>
  C7. No response that the handler returns carries a header named
  \<open>Transfer-Encoding\<close> in any casing: not the response assembled from the upstream
  response, whatever its headers, not the synthesized 502 response, and not the
  WebSocket response, to which the handler gives no headers.
\<close>

theorem transfer_encoding_never_forwarded:
  "filter (\<lambda>(key, value). lower key = ''transfer-encoding'') (resp_headers (build_response resp)) = []
   \<and> (\<forall>res. returned (handle_request netloc srv en rq) = Some (Inr res) \<longrightarrow>
        filter (\<lambda>(key, value). lower key = ''transfer-encoding'') (client_headers res) = [])"
proof -
  have "filter (\<lambda>(key, value). lower key = ''transfer-encoding'') (client_headers res) = []"
    if "returned (handle_request netloc srv en rq) = Some (Inr res)" for res
    using that
    by (auto simp: handle_request_def except_ClientError_def Let_def
                   build_response_no_transfer_encoding
             split: relay_end.splits sum.splits if_splits)
  then show ?thesis
    by (simp add: build_response_no_transfer_encoding)
qed

theorem transfer_encoding_never_forwarded_witness:
  "(''Transfer-Encoding'', ''chunked'') \<in> set (up_headers ex_chunked_response)
   \<and> returned (handle_request ex_netloc ex_server ex_http_env ex_request)
       = Some (Inr (HttpResponse (build_response ex_chunked_response)))
   \<and> resp_headers (build_response ex_chunked_response) = [(''Content-Type'', ''text/html'')]
   \<and> filter (\<lambda>(key, value). lower key = ''transfer-encoding'')
        (client_headers (HttpResponse (build_response ex_chunked_response))) = []"
proof -
  have r: "returned (handle_request ex_netloc ex_server ex_http_env ex_request)
       = Some (Inr (HttpResponse (build_response ex_chunked_response)))"
    by code_simp
  have h: "resp_headers (build_response ex_chunked_response) = [(''Content-Type'', ''text/html'')]"
    by code_simp
  have m: "(''Transfer-Encoding'', ''chunked'') \<in> set (up_headers ex_chunked_response)"
    by (simp add: ex_chunked_response_def)
  from transfer_encoding_never_forwarded [of ex_chunked_response ex_netloc ex_server ex_http_env ex_request] r
  have "filter (\<lambda>(key, value). lower key = ''transfer-encoding'')
        (client_headers (HttpResponse (build_response ex_chunked_response))) = []"
    by blast
  with r h m show ?thesis by simp
qed

text \<open>
  C3. An upstream response that carries an explicit content length under the key
  \<open>content-length\<close> and is not chunked still gets a \<open>Content-Length\<close> header injected:
  the membership test of \<open>build_response\<close> compares keys exactly. The value
  received from the upstream is overwritten by the length of the buffered body.
\<close>

theorem content_length_injected_despite_lowercase_header:
  "up_headers ex_lowercase_response = [(''content-length'', ''10'')]
   \<and> \<not> is_response_chunked ex_lowercase_response
   \<and> injects_content_length ex_lowercase_response
   \<and> resp_headers (build_response ex_lowercase_response)
       = [(''content-length'', ''0''), (''Content-Length'', ''0'')]"
  by code_simp

lemma injects_content_length_iff:
  "injects_content_length resp \<longleftrightarrow>
     ''Content-Length'' \<notin> fst ` set (up_headers resp) \<and> \<not> is_response_chunked resp"
proof -
  have "lower ''Content-Length'' \<noteq> ''transfer-encoding''"
    by (simp add: lower_Content_Length)
  then have "md_contains (filter (\<lambda>(key, value). lower key \<noteq> ''transfer-encoding'') (up_headers resp)) ''Content-Length''
      \<longleftrightarrow> ''Content-Length'' \<in> fst ` set (up_headers resp)"
    unfolding md_contains_def by (induction "up_headers resp") force+
  then show ?thesis by (simp add: injects_content_length_def)
qed

text \<open>
  C9. Whenever \<open>build_response\<close> injects the content length, the resulting header
  mapping has exactly one entry under the key \<open>Content-Length\<close> and exactly one under
  the key \<open>content-length\<close>; the two keys differ, the mapping compares keys exactly,
  and both entries carry the decimal length of the buffered body.
\<close>

theorem content_length_written_under_both_keys:
  assumes "injects_content_length resp"
  shows "filter (\<lambda>(key, value). key = ''Content-Length'') (resp_headers (build_response resp))
           = [(''Content-Length'', str_nat (length (up_body resp)))]
         \<and> filter (\<lambda>(key, value). key = ''content-length'') (resp_headers (build_response resp))
           = [(''content-length'', str_nat (length (up_body resp)))]
         \<and> ''Content-Length'' \<noteq> ''content-length''
         \<and> int_of_str (str_nat (length (up_body resp))) = length (up_body resp)"
proof -
  let ?hdrs = "filter (\<lambda>(key, value). lower key \<noteq> ''transfer-encoding'') (up_headers resp)"
  let ?v = "str_nat (length (up_body resp))"
  let ?m1 = "md_setitem ?hdrs ''Content-Length'' ?v"
  have res: "resp_headers (build_response resp) = md_setitem ?m1 ''content-length'' ?v"
    using assms by (simp add: build_response_headers Let_def)
  have ne: "\<not> (''content-length'' = ''Content-Length'')" by simp
  have "filter (\<lambda>(a, b). a = ''Content-Length'') (md_setitem ?m1 ''content-length'' ?v)
          = filter (\<lambda>(a, b). a = ''Content-Length'') ?m1"
    using filter_md_setitem_other [of "\<lambda>a. a = ''Content-Length''" "''content-length''", OF ne] .
  also have "\<dots> = [(''Content-Length'', ?v)]"
    by (rule filter_md_setitem_same)
  finally have a: "filter (\<lambda>(key, value). key = ''Content-Length'') (resp_headers (build_response resp))
           = [(''Content-Length'', ?v)]"
    by (simp only: res)
  have b: "filter (\<lambda>(key, value). key = ''content-length'') (resp_headers (build_response resp))
           = [(''content-length'', ?v)]"
    unfolding res by (rule filter_md_setitem_same)
  from a b show ?thesis by (simp add: int_of_str_str_nat)
qed

theorem content_length_written_under_both_keys_witness:
  "injects_content_length ex_plain_response
   \<and> resp_headers (build_response ex_plain_response)
       = [(''Content-Type'', ''text/html''), (''Content-Length'', ''5''), (''content-length'', ''5'')]
   \<and> filter (\<lambda>(key, value). key = ''Content-Length'') (resp_headers (build_response ex_plain_response))
       = [(''Content-Length'', ''5'')]
   \<and> filter (\<lambda>(key, value). key = ''content-length'') (resp_headers (build_response ex_plain_response))
       = [(''content-length'', ''5'')]"
proof -
  have i: "injects_content_length ex_plain_response" by code_simp
  have v: "str_nat (length (up_body ex_plain_response)) = ''5''" by code_simp
  have h: "resp_headers (build_response ex_plain_response)
       = [(''Content-Type'', ''text/html''), (''Content-Length'', ''5''), (''content-length'', ''5'')]"
    by code_simp
  from content_length_written_under_both_keys [OF i] i h show ?thesis
    unfolding v by simp
qed

subsection \<open>The forwarding loop\<close>

lemma forward_append_ok:
  "fst (forward pre ws_to) = None \<Longrightarrow>
   forward (pre @ evs) ws_to = forward evs (snd (forward pre ws_to))"
  by (induction pre ws_to rule: forward.induct) (auto split: option.splits if_splits)

lemma forward_append_failed:
  "fst (forward pre ws_to) = Some e \<Longrightarrow> forward (pre @ evs) ws_to = forward pre ws_to"
  by (induction pre ws_to rule: forward.induct) (auto split: option.splits if_splits)

text \<open>
  C10. Wherever it occurs among the events of a forwarding loop, a delivered message
  whose type is none of \<open>TEXT\<close>, \<open>BINARY\<close> and \<open>CLOSE\<close> changes nothing: the loop ends
  the same way and leaves the peer socket with the same frames sent and the same
  closed flag as if the message had not been delivered, and the loop goes on with the
  events after it.
\<close>

theorem forward_drops_other_frames:
  assumes "t \<noteq> TEXT" "t \<noteq> BINARY" "t \<noteq> CLOSE"
  shows "forward (pre @ Msg t d w # evs) ws_to = forward (pre @ evs) ws_to"
proof (cases "fst (forward pre ws_to)")
  case None
  then show ?thesis using assms by (simp add: forward_append_ok)
next
  case (Some e)
  then show ?thesis by (simp add: forward_append_failed)
qed

theorem forward_drops_other_frames_witness:
  "PING \<noteq> TEXT \<and> PING \<noteq> BINARY \<and> PING \<noteq> CLOSE
   \<and> forward ([Msg TEXT ''a'' None] @ Msg PING ''p'' None # [Msg BINARY ''b'' None]) new_sock
       = forward ([Msg TEXT ''a'' None] @ [Msg BINARY ''b'' None]) new_sock
   \<and> forward ([Msg TEXT ''a'' None] @ [Msg BINARY ''b'' None]) new_sock
       = (None, \<lparr>sent = [TextFrame ''a'', BinaryFrame ''b''], closed = False\<rparr>)"
proof -
  have t: "PING \<noteq> TEXT" "PING \<noteq> BINARY" "PING \<noteq> CLOSE" by simp_all
  have v: "forward ([Msg TEXT ''a'' None] @ [Msg BINARY ''b'' None]) new_sock
       = (None, \<lparr>sent = [TextFrame ''a'', BinaryFrame ''b''], closed = False\<rparr>)"
    by (simp add: new_sock_def)
  from forward_drops_other_frames [OF t, of "[Msg TEXT ''a'' None]" "''p''" None "[Msg BINARY ''b'' None]" new_sock]
    t v show ?thesis by simp
qed

subsection \<open>Upstream failures in the handler\<close>

lemma client_error_gives_502:
  assumes "\<not> wants_upgrade rq"
    and "session_request en \<lparr>call_method = rq_method rq, call_url = construct_target_url srv rq,
           call_headers = prepare_headers netloc srv rq, call_data = rq_body rq,
           call_cookies = rq_cookies rq\<rparr> = Inl (ClientError m)"
  shows "returned (handle_request netloc srv en rq) = Some (Inr (HttpResponse bad_gateway))
         \<and> length (upstream_calls (handle_request netloc srv en rq)) = 1
         \<and> printed (handle_request netloc srv en rq)
             = [''Proxy error to '' @ construct_target_url srv rq @ '': '' @ m]"
  using assms
  by (simp add: handle_request_def except_ClientError_def bad_gateway_def Let_def)

lemma uncaught_failure_propagates:
  assumes "\<not> wants_upgrade rq"
    and "session_request en \<lparr>call_method = rq_method rq, call_url = construct_target_url srv rq,
           call_headers = prepare_headers netloc srv rq, call_data = rq_body rq,
           call_cookies = rq_cookies rq\<rparr> = Inl e"
    and "\<not> is_client_error e"
  shows "returned (handle_request netloc srv en rq) = Some (Inl e)"
  using assms
  by (simp add: handle_request_def except_ClientError_def Let_def)

text \<open>
  C2. A refused connection, raised as a \<open>ClientError\<close>, is answered with the
  synthesized response of status 502 and text \<open>Bad Gateway\<close> after a single upstream
  call. A timeout of the upstream request is raised as \<open>asyncio.TimeoutError\<close>, which
  the \<open>except ClientError\<close> clause does not catch: the handler returns no response and
  the exception leaves it.
\<close>

theorem timeout_escapes_handler:
  "\<not> wants_upgrade ex_request
   \<and> returned (handle_request ex_netloc ex_server ex_refused_env ex_request)
       = Some (Inr (HttpResponse \<lparr>status = 502, resp_headers = [],
                                    payload = Text ''Bad Gateway''\<rparr>))
   \<and> returned (handle_request ex_netloc ex_server ex_timeout_env ex_request)
       = Some (Inl (TimeoutError []))
   \<and> upstream_calls (handle_request ex_netloc ex_server ex_timeout_env ex_request)
       = [HttpCall ex_call]"
  by code_simp

subsection \<open>The relay\<close>

lemma forward_one_raise_keeps_socket:
  "forward [ev] s = (Some e, s') \<Longrightarrow> s' = s"
  by (cases ev) (auto split: if_splits option.splits)

lemma forward_one_keeps_closed:
  "\<not> stops_iteration ev \<Longrightarrow> closed (snd (forward [ev] s)) = closed s"
  by (cases ev) (auto split: option.splits)

lemma forward_cons:
  "forward (ev # evs) s =
     (case forward [ev] s of (Some e, s') \<Rightarrow> (Some e, s') | (None, s') \<Rightarrow> forward evs s')"
proof (cases "fst (forward [ev] s)")
  case None
  with forward_append_ok [of "[ev]" s evs] show ?thesis
    by (cases "forward [ev] s") simp
next
  case (Some e)
  with forward_append_failed [of "[ev]" s e evs] show ?thesis
    by (cases "forward [ev] s") simp
qed

text \<open>
  While only one side sends and nothing ends the iteration, the interleaved relay does
  to the peer socket what the whole loop \<open>forward\<close> does on these events.
\<close>

lemma relay_steps_one_side:
  assumes "leg_running sd r" "\<forall>ev \<in> set evs. \<not> stops_iteration ev"
  shows "relay_steps (map (Pair sd) evs) r =
           (case forward evs (peer_sock sd r) of
              (Some e, s) \<Rightarrow> (Some e, end_leg sd (set_peer sd s r))
            | (None, s) \<Rightarrow> (None, set_peer sd s r))"
  using assms
proof (induction evs arbitrary: r)
  case Nil
  then show ?case by (cases sd) simp_all
next
  case (Cons ev evs)
  obtain x s where f: "forward [ev] (peer_sock sd r) = (x, s)"
    by (cases "forward [ev] (peer_sock sd r)")
  show ?case
  proof (cases x)
    case (Some e)
    with f Cons.prems show ?thesis
      by (simp add: relay_step_def forward_cons [of ev evs])
  next
    case None
    have run: "leg_running sd (set_peer sd s r)"
      using Cons.prems(1) by (cases sd) simp_all
    have peer: "peer_sock sd (set_peer sd s r) = s"
      by (cases sd) simp_all
    have twice: "set_peer sd s' (set_peer sd s r) = set_peer sd s' r" for s'
      by (cases sd) simp_all
    from Cons.prems(2) have rest: "\<forall>ev \<in> set evs. \<not> stops_iteration ev" by simp
    from Cons.IH [OF run rest] None f Cons.prems show ?thesis
      by (simp add: relay_step_def forward_cons [of ev evs] peer twice
               split: prod.splits option.splits)
  qed
qed

lemma relay_steps_append:
  "relay_steps pre r = (None, st) \<Longrightarrow> relay_steps (pre @ evs) r = relay_steps evs st"
proof (induction pre arbitrary: r)
  case Nil
  then show ?case by simp
next
  case (Cons x pre)
  obtain y r' where s: "relay_step x r = (y, r')" by (cases "relay_step x r")
  with Cons.prems have y: "y = None" by (cases y) simp_all
  from Cons.prems s y have "relay_steps pre r' = (None, st)" by simp
  then have "relay_steps (pre @ evs) r' = relay_steps evs st" by (rule Cons.IH)
  with s y show ?case by simp
qed

lemma relay_step_raises:
  assumes "leg_running sd st" "\<not> stops_iteration ev"
    and "fst (forward [ev] (peer_sock sd st)) = Some e"
  shows "relay_step (sd, ev) st = (Some e, end_leg sd st)"
proof -
  obtain s where f: "forward [ev] (peer_sock sd st) = (Some e, s)"
    using assms(3) by (cases "forward [ev] (peer_sock sd st)") simp
  then have "s = peer_sock sd st" by (rule forward_one_raise_keeps_socket)
  then have "set_peer sd s st = st" by (cases sd) simp_all
  with f assms(1,2) show ?thesis by (simp add: relay_step_def)
qed

lemma relay_step_keeps_closed:
  "closed (ws_server (snd (relay_step x r))) = closed (ws_server r)
   \<and> closed (ws_client (snd (relay_step x r))) = closed (ws_client r)"
proof -
  obtain sd ev where x: "x = (sd, ev)" by (cases x)
  show ?thesis
  proof (cases "leg_running sd r \<and> \<not> stops_iteration ev")
    case False
    then show ?thesis by (cases sd) (auto simp: x relay_step_def)
  next
    case True
    then have c: "closed (snd (forward [ev] (peer_sock sd r))) = closed (peer_sock sd r)"
      by (simp add: forward_one_keeps_closed)
    obtain y s where f: "forward [ev] (peer_sock sd r) = (y, s)"
      by (cases "forward [ev] (peer_sock sd r)")
    with c True show ?thesis
      by (cases sd; cases y) (simp_all add: x relay_step_def)
  qed
qed

lemma relay_steps_keep_closed:
  "closed (ws_server (snd (relay_steps evs r))) = closed (ws_server r)
   \<and> closed (ws_client (snd (relay_steps evs r))) = closed (ws_client r)"
proof (induction evs arbitrary: r)
  case Nil
  show ?case by simp
next
  case (Cons x evs)
  obtain y r' where s: "relay_step x r = (y, r')" by (cases "relay_step x r")
  from relay_step_keeps_closed [of x r] s
  have k: "closed (ws_server r') = closed (ws_server r) \<and> closed (ws_client r') = closed (ws_client r)"
    by simp
  show ?case
  proof (cases y)
    case None
    with s k Cons.IH [of r'] show ?thesis by simp
  next
    case (Some e)
    with s k show ?thesis by simp
  qed
qed

text \<open>
  The branch \<open>elif msg.type == WSMsgType.CLOSE\<close> of \<open>forward\<close> is never reached in a
  relay, since the iteration ends on such a message: the coroutines close neither
  socket, whatever the events. The only closing the handler does is that of
  \<open>ws_client\<close> on leaving the \<open>async with\<close> block.
\<close>

lemma gather_closes_nothing:
  "closed (ws_server (snd (gather evs r))) = closed (ws_server r)
   \<and> closed (ws_client (snd (gather evs r))) = closed (ws_client r)"
  using relay_steps_keep_closed [of evs r]
  by (cases "relay_steps evs r") (simp add: gather_def split: option.splits)

lemma upstream_socket_closed_only_on_leaving:
  assumes "ws_connect en (url, hdrs) = None" "ws_prepare en = None"
  shows "closed (ws_client (final (handle_websocket en url hdrs)))
           \<longleftrightarrow> ws_end (handle_websocket en url hdrs) \<noteq> WaitsForever"
    and "\<not> closed (ws_server (final (handle_websocket en url hdrs)))"
  using assms gather_closes_nothing [of "ws_events en" new_relay]
  by (auto simp: handle_websocket_def Let_def new_relay_def new_sock_def split: prod.splits)

lemma relay_of_both_close:
  "ws_end (handle_websocket ex_both_close_env ex_ws_url ex_ws_headers) = Completes
   \<and> sent (ws_client (final (handle_websocket ex_both_close_env ex_ws_url ex_ws_headers)))
       = [TextFrame ''ping'']
   \<and> sent (ws_server (final (handle_websocket ex_both_close_env ex_ws_url ex_ws_headers)))
       = [BinaryFrame ''data'']
   \<and> closed (ws_client (final (handle_websocket ex_both_close_env ex_ws_url ex_ws_headers)))"
  by code_simp

text \<open>
  C1, as stated, fails. With the upgrade completed on both sides and the upstream
  socket closing, the write of a client frame to the upstream raises a
  \<open>ClientError\<close> in the forwarding loop: \<open>handle_websocket\<close> raises it, and
  \<open>handle_request\<close> answers the client with the 502 response.
\<close>

theorem relay_failure_counterexample:
  "wants_upgrade ex_ws_request
   \<and> ws_connect ex_write_failure_env (ex_ws_url, ex_ws_headers) = None
   \<and> ws_prepare ex_write_failure_env = None
   \<and> ws_end (handle_websocket ex_write_failure_env ex_ws_url ex_ws_headers)
       = Raises (ClientError ''Cannot write to closing transport'')
   \<and> returned (handle_request ex_netloc ex_server ex_write_failure_env ex_ws_request)
       = Some (Inr (HttpResponse \<lparr>status = 502, resp_headers = [],
                                    payload = Text ''Bad Gateway''\<rparr>))"
  by code_simp

text \<open>
  C1, amended. For a relay session whose upgrade handshake has completed on both
  sides, an exception raised inside one forwarding loop, such as a failed write to the
  peer socket, ends that loop only and cancels nothing, but the relay does not
  contain it: \<open>handle_websocket\<close> raises it at once. At that point the relay is as
  the events before the failure left it, with the failing loop ended and the socket
  towards the upstream closed by leaving the \<open>async with\<close> block; the failing loop
  itself closes no socket. \<open>handle_request\<close> then answers with the 502 response when
  the exception is a \<open>ClientError\<close> and lets it propagate otherwise.
\<close>

theorem relay_failure_propagates:
  assumes "wants_upgrade rq"
    and "ws_connect en (construct_target_url srv rq, prepare_headers netloc srv rq) = None"
    and "ws_prepare en = None"
    and "ws_events en = pre @ (sd, ev) # rest"
    and "relay_steps pre new_relay = (None, st)"
    and "leg_running sd st" "\<not> stops_iteration ev"
    and "fst (forward [ev] (peer_sock sd st)) = Some e"
  shows "ws_end (handle_websocket en (construct_target_url srv rq) (prepare_headers netloc srv rq))
           = Raises e
         \<and> final (handle_websocket en (construct_target_url srv rq) (prepare_headers netloc srv rq))
           = (end_leg sd st)\<lparr>ws_client := (ws_client st)\<lparr>closed := True\<rparr>\<rparr>
         \<and> returned (handle_request netloc srv en rq)
           = Some (if is_client_error e then Inr (HttpResponse bad_gateway) else Inl e)"
proof -
  let ?w = "handle_websocket en (construct_target_url srv rq) (prepare_headers netloc srv rq)"
  have step: "relay_step (sd, ev) st = (Some e, end_leg sd st)"
    using assms(6-8) by (rule relay_step_raises)
  have "relay_steps (ws_events en) new_relay = relay_steps ((sd, ev) # rest) st"
    unfolding assms(4) using assms(5) by (rule relay_steps_append)
  then have run: "relay_steps (ws_events en) new_relay = (Some e, end_leg sd st)"
    by (simp add: step)
  then have g: "gather (ws_events en) new_relay = (Raises e, end_leg sd st)"
    by (simp add: gather_def)
  have c: "ws_client (end_leg sd st) = ws_client st"
    by (cases sd) simp_all
  have w: "?w = \<lparr>ws_end = Raises e,
                 final = (end_leg sd st)\<lparr>ws_client := (ws_client st)\<lparr>closed := True\<rparr>\<rparr>\<rparr>"
    using assms(2,3) by (simp add: handle_websocket_def g c)
  have "returned (handle_request netloc srv en rq)
          = Some (if is_client_error e then Inr (HttpResponse bad_gateway) else Inl e)"
    using assms(1) by (simp add: handle_request_def w except_ClientError_def bad_gateway_def Let_def)
  with w show ?thesis by simp
qed

theorem relay_failure_propagates_witness:
  "wants_upgrade ex_ws_request
   \<and> ws_connect ex_write_failure_env
        (construct_target_url ex_server ex_ws_request, prepare_headers ex_netloc ex_server ex_ws_request)
       = None
   \<and> ws_prepare ex_write_failure_env = None
   \<and> ws_events ex_write_failure_env
       = [(Upstream, Msg CLOSE [] None)]
         @ (Client, Msg TEXT ''ping'' (Some (ClientError ''Cannot write to closing transport''))) # []
   \<and> relay_steps [(Upstream, Msg CLOSE [] None)] new_relay = (None, end_leg Upstream new_relay)
   \<and> leg_running Client (end_leg Upstream new_relay)
   \<and> \<not> stops_iteration (Msg TEXT ''ping'' (Some (ClientError ''Cannot write to closing transport'')))
   \<and> ws_end (handle_websocket ex_write_failure_env (construct_target_url ex_server ex_ws_request)
         (prepare_headers ex_netloc ex_server ex_ws_request))
       = Raises (ClientError ''Cannot write to closing transport'')
   \<and> final (handle_websocket ex_write_failure_env (construct_target_url ex_server ex_ws_request)
         (prepare_headers ex_netloc ex_server ex_ws_request))
       = \<lparr>upstream_leg = False, client_leg = False, ws_server = new_sock,
          ws_client = \<lparr>sent = [], closed = True\<rparr>\<rparr>
   \<and> returned (handle_request ex_netloc ex_server ex_write_failure_env ex_ws_request)
       = Some (Inr (HttpResponse bad_gateway))"
proof -
  let ?e = "ClientError ''Cannot write to closing transport''"
  let ?ev = "Msg TEXT ''ping'' (Some ?e)"
  let ?st = "end_leg Upstream new_relay"
  have u: "wants_upgrade ex_ws_request" by code_simp
  have c: "ws_connect ex_write_failure_env
        (construct_target_url ex_server ex_ws_request, prepare_headers ex_netloc ex_server ex_ws_request)
       = None"
    by (simp add: ex_write_failure_env_def ex_env_def)
  have p: "ws_prepare ex_write_failure_env = None"
    by (simp add: ex_write_failure_env_def ex_env_def)
  have t: "ws_events ex_write_failure_env = [(Upstream, Msg CLOSE [] None)] @ (Client, ?ev) # []"
    by (simp add: ex_write_failure_env_def ex_env_def)
  have s: "relay_steps [(Upstream, Msg CLOSE [] None)] new_relay = (None, ?st)"
    by (simp add: relay_step_def new_relay_def)
  have l: "leg_running Client ?st" by (simp add: new_relay_def)
  have n: "\<not> stops_iteration ?ev" by simp
  have f: "fst (forward [?ev] (peer_sock Client ?st)) = Some ?e" by simp
  have st: "(end_leg Client ?st)\<lparr>ws_client := (ws_client ?st)\<lparr>closed := True\<rparr>\<rparr>
      = \<lparr>upstream_leg = False, client_leg = False, ws_server = new_sock,
          ws_client = \<lparr>sent = [], closed = True\<rparr>\<rparr>"
    by (simp add: new_relay_def new_sock_def)
  from relay_failure_propagates [OF u c p t s l n f] u c p t s l n
  show ?thesis unfolding st by simp
qed

text \<open>
  C4. The client sends a text frame and then a close frame while the upstream stays
  connected and silent. The iteration over the client socket ends on the close frame
  without running the loop body, so \<open>ws_to.close()\<close> is not called: the frame was
  relayed, the socket towards the upstream is not closed, the other loop goes on
  waiting for the upstream, and neither the relay nor the handler ever returns.
\<close>

theorem close_frame_leaves_upstream_open:
  "ws_events ex_client_close_env
     = [(Client, Msg TEXT ''ping'' None), (Client, Msg CLOSE [] None)]
   \<and> ws_end (handle_websocket ex_client_close_env ex_ws_url ex_ws_headers) = WaitsForever
   \<and> sent (ws_client (final (handle_websocket ex_client_close_env ex_ws_url ex_ws_headers)))
       = [TextFrame ''ping'']
   \<and> \<not> closed (ws_client (final (handle_websocket ex_client_close_env ex_ws_url ex_ws_headers)))
   \<and> upstream_leg (final (handle_websocket ex_client_close_env ex_ws_url ex_ws_headers))
   \<and> \<not> client_leg (final (handle_websocket ex_client_close_env ex_ws_url ex_ws_headers))
   \<and> returned (handle_request ex_netloc ex_server ex_client_close_env ex_ws_request) = None"
  by code_simp

end
